theory Spec2Isabelle
  imports Main "HOL-Library.Word"
begin

section \<open>The vimc pipeline handler: data model\<close>

text \<open>
  The source is \<^verbatim>\<open>src/libcamera/pipeline/vimc.cpp\<close> (the handler) and
  \<^verbatim>\<open>include/libcamera/stream.h\<close> (Stream, StreamConfiguration, StreamRole).
  Pointers are addresses: a \<^verbatim>\<open>Stream *\<close> is a natural number, and the Stream objects
  live in a store that maps an address to the object. A \<^verbatim>\<open>Buffer *\<close> is the
  identity of a buffer. C \<^verbatim>\<open>unsigned int\<close> is a 32-bit word, a C \<^verbatim>\<open>int\<close>
  return code is an integer (no arithmetic is done on return codes).
\<close>

type_synonym stream_ptr = nat

type_synonym Buffer = nat

type_synonym BufferPool = "Buffer list"

text \<open>\<^verbatim>\<open>Size\<close> (geometry.h): the source initialises it as \<^verbatim>\<open>{ 640, 480 }\<close>.\<close>

record Size =
  width :: "32 word"
  height :: "32 word"

text \<open>\<^verbatim>\<open>struct StreamConfiguration\<close> of stream.h; the field \<^verbatim>\<open>size\<close> is
  \<open>size_cfg\<close> here.\<close>

record StreamConfiguration =
  pixelFormat :: "32 word"
  size_cfg :: Size
  bufferCount :: "32 word"

datatype StreamRole = StillCapture | VideoRecording | Viewfinder

type_synonym StreamRoles = "StreamRole list"

text \<open>\<^verbatim>\<open>class Stream\<close> of stream.h.\<close>

record Stream =
  bufferPool :: BufferPool
  configuration :: StreamConfiguration

type_synonym stream_store = "stream_ptr \<Rightarrow> Stream"

text \<open>\<^verbatim>\<open>CameraConfiguration\<close>: the handler writes it with
  \<^verbatim>\<open>config[&data->stream_] = cfg\<close> and reads it with \<^verbatim>\<open>config[&data->stream_]\<close>;
  it is a map from Stream addresses to configurations.\<close>

type_synonym CameraConfiguration = "stream_ptr \<rightharpoonup> StreamConfiguration"

text \<open>\<^verbatim>\<open>V4L2DeviceFormat\<close>: the two fields the handler sets and compares; the field
  \<^verbatim>\<open>size\<close> is \<open>size_fmt\<close> here.\<close>

record V4L2DeviceFormat =
  fourcc :: "32 word"
  size_fmt :: Size

text \<open>Modelled from the spec: the Request class (request.h is not among the sources). A
  Request is a "mapping from Stream to assigned Buffer, plus overall completion state"; it
  "tracks, per stream, which Buffer was assigned and whether it has completed". The third
  status is the "error status" of a Request flushed by stop.\<close>

datatype Status = Pending | Completed | Cancelled

record Request =
  bufferMap :: "(stream_ptr \<times> Buffer) list"
  completedBuffers :: "Buffer list"
  status :: Status

text \<open>The operations the handler invokes on its \<^verbatim>\<open>V4L2Device *video_\<close>, in the order
  of invocation. What the device answers is an argument of the handler operation that
  makes the call.\<close>

datatype v4l2_call =
  Open
  | SetFormat V4L2DeviceFormat
  | ExportBuffers
  | ReleaseBuffers
  | StreamOn
  | StreamOff
  | QueueBuffer Buffer

text \<open>The capture video node: the entity it was created on and the calls issued on
  it.\<close>

record V4L2Device =
  entity :: "string option"
  calls :: "v4l2_call list"

text \<open>The Camera, as far as the handler reaches it: its name, its streams, and the two
  notifications of the spec's registry interface, \<^verbatim>\<open>onBufferComplete\<close> and
  \<^verbatim>\<open>onRequestComplete\<close>, as the lists of what was reported so far.\<close>

record Camera =
  camera_name :: string
  camera_streams :: "stream_ptr list"
  bufferCompleted :: "(Request \<times> Buffer) list"
  requestCompleted :: "Request list"

text \<open>\<^verbatim>\<open>VimcCameraData\<close>: \<^verbatim>\<open>video_\<close>, the address of the member \<^verbatim>\<open>stream_\<close>
  (\<^verbatim>\<open>&data->stream_\<close>), and the members inherited from \<^verbatim>\<open>CameraData\<close> that the
  handler uses: \<^verbatim>\<open>camera_\<close> and \<^verbatim>\<open>queuedRequests_\<close>.\<close>

record VimcCameraData =
  video :: V4L2Device
  stream :: stream_ptr
  camera :: Camera
  queuedRequests :: "Request list"

text \<open>Where C++ has no defined behaviour, or the source under \<^verbatim>\<open>src/\<close> does not
  determine it, the model returns a fault.\<close>

datatype fault =
  FrontOfEmptyList
  | BeginOfEmptySet
  | NoConfigurationEntry

definition EINVAL :: int where
  "EINVAL = 22"

definition ENOENT :: int where
  "ENOENT = 2"

text \<open>\<^verbatim>\<open>V4L2_PIX_FMT_RGB24\<close> is \<^verbatim>\<open>v4l2_fourcc('R', 'G', 'B', '3')\<close> in the kernel's
  videodev2.h: the four characters, least significant byte first.\<close>

definition V4L2_PIX_FMT_RGB24 :: "32 word" where
  "V4L2_PIX_FMT_RGB24 = 0x33424752"

definition issue :: "v4l2_call \<Rightarrow> V4L2Device \<Rightarrow> V4L2Device" where
  "issue c dev = dev\<lparr>calls := calls dev @ [c]\<rparr>"

section \<open>generateConfiguration, configure\<close>

text \<open>vimc.cpp, lines 77 to 92. The roles are not read.\<close>

definition generateConfiguration ::
  "VimcCameraData \<Rightarrow> StreamRoles \<Rightarrow> CameraConfiguration \<times> VimcCameraData" where
  "generateConfiguration d roles =
     (let cfg = \<lparr>pixelFormat = V4L2_PIX_FMT_RGB24,
                 size_cfg = \<lparr>width = 640, height = 480\<rparr>,
                 bufferCount = 4\<rparr>
      in (Map.empty(stream d \<mapsto> cfg), d))"

text \<open>vimc.cpp, lines 94 to 114. \<open>setFormat\<close> is the device's answer to
  \<^verbatim>\<open>video_->setFormat(&format)\<close>: the return code and the format as the call leaves
  it. What \<^verbatim>\<open>config[&data->stream_]\<close> yields for a configuration without an entry
  for the stream is decided outside \<^verbatim>\<open>src/\<close>: a fault here.\<close>

definition configure ::
  "VimcCameraData \<Rightarrow> CameraConfiguration \<Rightarrow> (V4L2DeviceFormat \<Rightarrow> int \<times> V4L2DeviceFormat)
     \<Rightarrow> fault + (int \<times> VimcCameraData)" where
  "configure d config setFormat =
     (case config (stream d) of
        None \<Rightarrow> Inl NoConfigurationEntry
      | Some cfg \<Rightarrow>
          (let format = \<lparr>fourcc = pixelFormat cfg, size_fmt = size_cfg cfg\<rparr>;
               ret = fst (setFormat format);
               format' = snd (setFormat format);
               d' = d\<lparr>video := issue (SetFormat format) (video d)\<rparr>
           in if ret \<noteq> 0 then Inr (ret, d')
              else if size_fmt format' \<noteq> size_cfg cfg \<or> fourcc format' \<noteq> pixelFormat cfg
                then Inr (- EINVAL, d')
              else Inr (0, d')))"

section \<open>allocateBuffers, freeBuffers\<close>

text \<open>vimc.cpp, lines 116 to 126. \<open>streams\<close> is the \<^verbatim>\<open>std::set<Stream *>\<close> in its
  iteration order, so \<^verbatim>\<open>*streams.begin()\<close> is the head of the list; on an empty set
  it has no defined behaviour. \<open>exportBuffers\<close> is the device's answer to
  \<^verbatim>\<open>video_->exportBuffers(&stream->bufferPool())\<close>: the return code and the pool as
  the call leaves it. The device is handed the pool and nothing else:
  \<^verbatim>\<open>cfg.bufferCount\<close> is read for the log line alone.\<close>

definition allocateBuffers ::
  "VimcCameraData \<Rightarrow> stream_store \<Rightarrow> stream_ptr list \<Rightarrow> (BufferPool \<Rightarrow> int \<times> BufferPool)
     \<Rightarrow> fault + (int \<times> VimcCameraData \<times> stream_store)" where
  "allocateBuffers d store streams exportBuffers =
     (case streams of
        [] \<Rightarrow> Inl BeginOfEmptySet
      | s # _ \<Rightarrow>
          (let ret = fst (exportBuffers (bufferPool (store s)));
               pool' = snd (exportBuffers (bufferPool (store s)))
           in Inr (ret, d\<lparr>video := issue ExportBuffers (video d)\<rparr>,
                   store(s := (store s)\<lparr>bufferPool := pool'\<rparr>))))"

text \<open>vimc.cpp, lines 128 to 133. \<open>ret\<close> is the device's answer to
  \<^verbatim>\<open>releaseBuffers()\<close>. The streams are not read, and the device is handed no
  pool.\<close>

definition freeBuffers ::
  "VimcCameraData \<Rightarrow> stream_ptr list \<Rightarrow> int \<Rightarrow> int \<times> VimcCameraData" where
  "freeBuffers d streams ret = (ret, d\<lparr>video := issue ReleaseBuffers (video d)\<rparr>)"

section \<open>start, stop\<close>

text \<open>vimc.cpp, lines 135 to 139. \<open>ret\<close> is the device's answer to \<^verbatim>\<open>streamOn()\<close>.\<close>

definition start :: "VimcCameraData \<Rightarrow> int \<Rightarrow> int \<times> VimcCameraData" where
  "start d ret = (ret, d\<lparr>video := issue StreamOn (video d)\<rparr>)"

text \<open>Modelled from the spec: \<^verbatim>\<open>PipelineHandler::stop\<close> of the base class (not among the
  sources). "stop() must flush the in-flight queue: any Requests not yet completed are
  either forcibly completed with an error status or discarded". Which of the two is a
  parameter.\<close>

datatype flush_policy = CompleteWithError | Discard

definition PipelineHandler_stop :: "flush_policy \<Rightarrow> VimcCameraData \<Rightarrow> VimcCameraData" where
  "PipelineHandler_stop policy d =
     (case policy of
        Discard \<Rightarrow> d\<lparr>queuedRequests := []\<rparr>
      | CompleteWithError \<Rightarrow>
          d\<lparr>camera := (camera d)\<lparr>requestCompleted :=
                 requestCompleted (camera d)
                   @ map (\<lambda>r. r\<lparr>status := Cancelled\<rparr>) (queuedRequests d)\<rparr>,
            queuedRequests := []\<rparr>)"

text \<open>vimc.cpp, lines 141 to 146. \<open>ret\<close> is the device's answer to \<^verbatim>\<open>streamOff()\<close>;
  the source drops it.\<close>

definition stop :: "VimcCameraData \<Rightarrow> int \<Rightarrow> flush_policy \<Rightarrow> VimcCameraData" where
  "stop d ret policy = PipelineHandler_stop policy (d\<lparr>video := issue StreamOff (video d)\<rparr>)"

section \<open>queueRequest, bufferReady\<close>

text \<open>Modelled from the spec: \<^verbatim>\<open>Request::findBuffer\<close>, the lookup in the Request's
  "mapping from Stream to assigned Buffer"; no entry is the null pointer.\<close>

definition findBuffer :: "Request \<Rightarrow> stream_ptr \<Rightarrow> Buffer option" where
  "findBuffer request s = map_of (bufferMap request) s"

text \<open>Modelled from the spec: \<^verbatim>\<open>PipelineHandler::queueRequest\<close> of the base class: "On
  success, appends the Request to the Camera's in-flight queue".\<close>

definition PipelineHandler_queueRequest :: "VimcCameraData \<Rightarrow> Request \<Rightarrow> VimcCameraData" where
  "PipelineHandler_queueRequest d request =
     d\<lparr>queuedRequests := queuedRequests d @ [request]\<rparr>"

text \<open>vimc.cpp, lines 148 to 166. \<open>ret\<close> is the device's answer to
  \<^verbatim>\<open>queueBuffer(buffer)\<close>.\<close>

definition queueRequest :: "VimcCameraData \<Rightarrow> Request \<Rightarrow> int \<Rightarrow> int \<times> VimcCameraData" where
  "queueRequest d request ret =
     (case findBuffer request (stream d) of
        None \<Rightarrow> (- ENOENT, d)
      | Some buffer \<Rightarrow>
          (let d' = d\<lparr>video := issue (QueueBuffer buffer) (video d)\<rparr>
           in if ret < 0 then (ret, d')
              else (0, PipelineHandler_queueRequest d' request)))"

text \<open>Modelled from the spec: \<^verbatim>\<open>PipelineHandler::completeBuffer\<close> of the base class: "The
  Buffer is marked complete for its Stream within that Request", and the application is
  notified (\<^verbatim>\<open>onBufferComplete\<close>). The marked Request is returned with the new state.
  There is "no buffer-identity cross-check".\<close>

definition completeBuffer ::
  "VimcCameraData \<Rightarrow> Request \<Rightarrow> Buffer \<Rightarrow> Request \<times> VimcCameraData" where
  "completeBuffer d request buffer =
     (request\<lparr>completedBuffers := completedBuffers request @ [buffer]\<rparr>,
      d\<lparr>camera := (camera d)\<lparr>bufferCompleted :=
             bufferCompleted (camera d) @ [(request, buffer)]\<rparr>\<rparr>)"

text \<open>Modelled from the spec: \<^verbatim>\<open>PipelineHandler::completeRequest\<close> of the base class: "the
  Request is popped from the queue and reported as Completed to the application".\<close>

definition completeRequest :: "VimcCameraData \<Rightarrow> Request \<Rightarrow> fault + VimcCameraData" where
  "completeRequest d request =
     (case queuedRequests d of
        [] \<Rightarrow> Inl FrontOfEmptyList
      | _ # rest \<Rightarrow>
          Inr (d\<lparr>camera := (camera d)\<lparr>requestCompleted :=
                     requestCompleted (camera d) @ [request\<lparr>status := Completed\<rparr>]\<rparr>,
                 queuedRequests := rest\<rparr>))"

text \<open>vimc.cpp, lines 204 to 210. \<^verbatim>\<open>queuedRequests_.front()\<close> of an empty list has no
  defined behaviour; the source does not test for it.\<close>

definition bufferReady :: "VimcCameraData \<Rightarrow> Buffer \<Rightarrow> fault + VimcCameraData" where
  "bufferReady d buffer =
     (case queuedRequests d of
        [] \<Rightarrow> Inl FrontOfEmptyList
      | request # _ \<Rightarrow>
          (let (request', d') = completeBuffer d request buffer
           in completeRequest d' request'))"

text \<open>Whether the Stream's Buffer has completed within a Request.\<close>

definition streamCompleted :: "Request \<Rightarrow> stream_ptr \<Rightarrow> bool" where
  "streamCompleted request s =
     (case findBuffer request s of
        None \<Rightarrow> False
      | Some buffer \<Rightarrow> buffer \<in> set (completedBuffers request))"

text \<open>The reactor of the spec's section 5: the events of one camera, processed one
  after the other on a single thread. A request is queued with the device's answer to
  its \<^verbatim>\<open>queueBuffer\<close>; the return code of \<open>queueRequest\<close> goes to the caller.\<close>

datatype event = QueueRequest Request int | BufferReady Buffer

fun deliver :: "VimcCameraData \<Rightarrow> event list \<Rightarrow> fault + VimcCameraData" where
  "deliver d [] = Inr d"
| "deliver d (QueueRequest request ret # es) = deliver (snd (queueRequest d request ret)) es"
| "deliver d (BufferReady buffer # es) =
     (case bufferReady d buffer of
        Inl f \<Rightarrow> Inl f
      | Inr d' \<Rightarrow> deliver d' es)"

section \<open>match\<close>

text \<open>Modelled from the spec: the Entity Graph ("a named collection of Entities
  representing one discoverable hardware instance"); an Entity is its name, the only
  attribute matching reads.\<close>

record EntityGraph =
  graph_driver :: string
  graph_entities :: "string list"

text \<open>\<^verbatim>\<open>DeviceMatch\<close>: the driver name given to the constructor and the entity names
  added, in order.\<close>

record DeviceMatch =
  dm_driver :: string
  dm_entities :: "string list"

definition DeviceMatch_new :: "string \<Rightarrow> DeviceMatch" where
  "DeviceMatch_new driver = \<lparr>dm_driver = driver, dm_entities = []\<rparr>"

definition add :: "string \<Rightarrow> DeviceMatch \<Rightarrow> DeviceMatch" where
  "add e dm = dm\<lparr>dm_entities := dm_entities dm @ [e]\<rparr>"

text \<open>Modelled from the spec: the Device Matcher's test of one graph, "checks that every
  required name is present among its Entities (set-containment, not exact graph
  isomorphism: extra entities in the graph are permitted and ignored)". The names alone
  are compared; the driver name of the \<^verbatim>\<open>DeviceMatch\<close> is carried, not read.\<close>

fun present :: "string list \<Rightarrow> EntityGraph \<Rightarrow> bool" where
  "present [] graph = True"
| "present (e # required) graph =
     (if e \<in> set (graph_entities graph) then present required graph else False)"

text \<open>Modelled from the spec: \<^verbatim>\<open>PipelineHandler::acquireMediaDevice\<close> over the
  enumerator's graphs in discovery order: "The first graph satisfying containment wins";
  none is the null pointer.\<close>

fun acquireMediaDevice :: "EntityGraph list \<Rightarrow> DeviceMatch \<Rightarrow> EntityGraph option" where
  "acquireMediaDevice [] dm = None"
| "acquireMediaDevice (graph # graphs) dm =
     (if present (dm_entities dm) graph then Some graph else acquireMediaDevice graphs dm)"

text \<open>Modelled from the spec: the Bound Hardware Handle's "lookup Entity by name".\<close>

definition getEntityByName :: "EntityGraph \<Rightarrow> string \<Rightarrow> string option" where
  "getEntityByName md e = (if e \<in> set (graph_entities md) then Some e else None)"

text \<open>The handler: the media device it has acquired and the cameras it has registered,
  each with its private data.\<close>

record PipelineHandlerVimc =
  media :: "EntityGraph option"
  cameras :: "VimcCameraData list"

text \<open>Modelled from the spec: \<^verbatim>\<open>registerCamera(camera, private_data)\<close>.\<close>

definition registerCamera ::
  "Camera \<Rightarrow> VimcCameraData \<Rightarrow> PipelineHandlerVimc \<Rightarrow> PipelineHandlerVimc" where
  "registerCamera cam d h = h\<lparr>cameras := cameras h @ [d\<lparr>camera := cam\<rparr>]\<rparr>"

text \<open>The names the source adds to its \<^verbatim>\<open>DeviceMatch dm("vimc")\<close>, lines 170 to 180.\<close>

definition vimc_dm :: DeviceMatch where
  "vimc_dm =
     (add ''Scaler'' (add ''RGB/YUV Input'' (add ''Debayer B'' (add ''Debayer A''
       (add ''Sensor B'' (add ''Sensor A'' (add ''RGB/YUV Capture''
         (add ''Raw Capture 1'' (add ''Raw Capture 0'' (DeviceMatch_new ''vimc''))))))))))"

text \<open>vimc.cpp, lines 168 to 202. \<open>enumerator\<close> is the discovered graphs in discovery
  order, \<open>open_ret\<close> the device's answer to \<^verbatim>\<open>open()\<close>, \<open>a\<close> the address of the
  new data's \<^verbatim>\<open>stream_\<close>. The new data has nothing queued and its Camera has reported
  nothing. When \<^verbatim>\<open>open()\<close> fails the data is dropped and the media device stays
  acquired.\<close>

definition match ::
  "PipelineHandlerVimc \<Rightarrow> EntityGraph list \<Rightarrow> int \<Rightarrow> stream_ptr \<Rightarrow> bool \<times> PipelineHandlerVimc" where
  "match h enumerator open_ret a =
     (case acquireMediaDevice enumerator vimc_dm of
        None \<Rightarrow> (False, h)
      | Some md \<Rightarrow>
          (let h' = h\<lparr>media := Some md\<rparr>;
               device = issue Open
                 \<lparr>entity = getEntityByName md ''Raw Capture 1'', calls = []\<rparr>
           in if open_ret \<noteq> 0 then (False, h')
              else
                (let cam = \<lparr>camera_name = ''VIMC Sensor B'', camera_streams = [a],
                               bufferCompleted = [], requestCompleted = []\<rparr>;
                     d = \<lparr>video = device, stream = a, camera = cam,
                          queuedRequests = []\<rparr>
                 in (True, registerCamera cam d h'))))"

section \<open>Runs of events, and what is reported\<close>

text \<open>The Request as the application is told it completed with the given Buffer: the
  Buffer marked, the status Completed.\<close>

definition reported :: "Request \<times> Buffer \<Rightarrow> Request" where
  "reported rb = (fst rb)\<lparr>completedBuffers := completedBuffers (fst rb) @ [snd rb],
                         status := Completed\<rparr>"

text \<open>Whether \<open>queueRequest\<close> takes the request, given the device's answer to its
  \<^verbatim>\<open>queueBuffer\<close>: the request holds a buffer for the camera's stream and the answer
  is not negative.\<close>

definition accepted :: "VimcCameraData \<Rightarrow> Request \<times> int \<Rightarrow> bool" where
  "accepted d q = (findBuffer (fst q) (stream d) \<noteq> None \<and> 0 \<le> snd q)"

definition submit :: "Request \<times> int \<Rightarrow> event" where
  "submit q = QueueRequest (fst q) (snd q)"

section \<open>Concrete inputs\<close>

text \<open>A camera as \<open>match\<close> registers it, with its stream at address 1 and nothing
  queued.\<close>

definition idle_device :: V4L2Device where
  "idle_device = \<lparr>entity = Some ''Raw Capture 1'', calls = [Open]\<rparr>"

definition sensor_b :: Camera where
  "sensor_b = \<lparr>camera_name = ''VIMC Sensor B'', camera_streams = [1],
                bufferCompleted = [], requestCompleted = []\<rparr>"

definition idle_camera :: VimcCameraData where
  "idle_camera = \<lparr>video = idle_device, stream = 1, camera = sensor_b, queuedRequests = []\<rparr>"

text \<open>A pending Request with one Buffer for one Stream, and one with a Buffer for the
  camera's stream and a Buffer for a stream at address 2, which is not the camera's.\<close>

definition request_for :: "stream_ptr \<Rightarrow> Buffer \<Rightarrow> Request" where
  "request_for s b = \<lparr>bufferMap = [(s, b)], completedBuffers = [], status = Pending\<rparr>"

definition request_for_both :: Request where
  "request_for_both = \<lparr>bufferMap = [(1, 0), (2, 9)], completedBuffers = [], status = Pending\<rparr>"

definition default_cfg :: StreamConfiguration where
  "default_cfg = \<lparr>pixelFormat = V4L2_PIX_FMT_RGB24, size_cfg = \<lparr>width = 640, height = 480\<rparr>,
                   bufferCount = 4\<rparr>"

text \<open>Three answers of the device to \<^verbatim>\<open>setFormat\<close>: it takes the format as asked; it
  halves the width; it fails with \<^verbatim>\<open>-EBUSY\<close> and leaves the format as asked.\<close>

definition accepts_format :: "V4L2DeviceFormat \<Rightarrow> int \<times> V4L2DeviceFormat" where
  "accepts_format f = (0, f)"

definition halves_width :: "V4L2DeviceFormat \<Rightarrow> int \<times> V4L2DeviceFormat" where
  "halves_width f = (0, f\<lparr>size_fmt := \<lparr>width = 320, height = 480\<rparr>\<rparr>)"

definition busy_format :: "V4L2DeviceFormat \<Rightarrow> int \<times> V4L2DeviceFormat" where
  "busy_format f = (- 16, f)"

text \<open>A graph with the nine entities of vimc and one more; a graph of another driver; a
  handler that has matched nothing yet.\<close>

definition vimc_graph :: EntityGraph where
  "vimc_graph = \<lparr>graph_driver = ''vimc'',
     graph_entities = [''Sensor A'', ''Sensor B'', ''Debayer A'', ''Debayer B'',
       ''Raw Capture 0'', ''Raw Capture 1'', ''RGB/YUV Input'', ''Scaler'',
       ''RGB/YUV Capture'', ''Lens''] \<rparr>"

definition uvc_graph :: EntityGraph where
  "uvc_graph = \<lparr>graph_driver = ''uvcvideo'', graph_entities = [''Sensor A'', ''Scaler'']\<rparr>"

definition fresh_handler :: PipelineHandlerVimc where
  "fresh_handler = \<lparr>media = None, cameras = []\<rparr>"

section \<open>The completion of requests\<close>

lemma bufferReady_front:
  "queuedRequests d = request # rest \<Longrightarrow>
   bufferReady d buffer =
     Inr (d\<lparr>camera := (camera d)\<lparr>
               bufferCompleted := bufferCompleted (camera d) @ [(request, buffer)],
               requestCompleted := requestCompleted (camera d)
                 @ [request\<lparr>completedBuffers := completedBuffers request @ [buffer],
                            status := Completed\<rparr>]\<rparr>,
            queuedRequests := rest\<rparr>)"
  by (simp add: bufferReady_def completeBuffer_def completeRequest_def)

text \<open>C1. A buffer-ready event that finds a request in the in-flight queue is correlated
  against the request at the front: \<open>bufferReady\<close> returns normally, the application
  is told that the buffer completed for that request, the request is popped from the queue
  and reported, with the buffer marked in it and the status Completed, and the rest of
  the queue, the device and the stream are as before. When the buffer is the one the
  request holds for the camera's stream, that stream has completed within the request.\<close>

theorem bufferReady_completes_front:
  assumes "queuedRequests d = request # rest"
  shows "\<exists>d'. bufferReady d buffer = Inr d'
           \<and> queuedRequests d' = rest
           \<and> bufferCompleted (camera d') = bufferCompleted (camera d) @ [(request, buffer)]
           \<and> requestCompleted (camera d') = requestCompleted (camera d)
                @ [request\<lparr>completedBuffers := completedBuffers request @ [buffer],
                           status := Completed\<rparr>]
           \<and> (findBuffer request (stream d) = Some buffer \<longrightarrow>
                streamCompleted (last (requestCompleted (camera d'))) (stream d))
           \<and> video d' = video d \<and> stream d' = stream d"
  using assms by (simp add: bufferReady_front streamCompleted_def findBuffer_def)

theorem bufferReady_completes_front_witness:
  "\<exists>d'. bufferReady (idle_camera\<lparr>queuedRequests := [request_for 1 0, request_for 1 1]\<rparr>) 0 = Inr d'
      \<and> queuedRequests d' = [request_for 1 1]
      \<and> bufferCompleted (camera d') = [(request_for 1 0, 0)]
      \<and> requestCompleted (camera d')
           = [\<lparr>bufferMap = [(1, 0)], completedBuffers = [0], status = Completed\<rparr>]
      \<and> streamCompleted (last (requestCompleted (camera d'))) 1"
  using bufferReady_completes_front
    [of "idle_camera\<lparr>queuedRequests := [request_for 1 0, request_for 1 1]\<rparr>"
        "request_for 1 0" "[request_for 1 1]" 0]
  by (auto simp add: idle_camera_def sensor_b_def request_for_def findBuffer_def)

lemma deliver_append:
  "deliver d (es @ fs) = (case deliver d es of Inl f \<Rightarrow> Inl f | Inr d' \<Rightarrow> deliver d' fs)"
proof (induction d es rule: deliver.induct)
  case (3 d buffer es)
  then show ?case by (cases "bufferReady d buffer") simp_all
qed simp_all

lemma queueRequest_accepted:
  "accepted d q \<Longrightarrow>
   queuedRequests (snd (queueRequest d (fst q) (snd q))) = queuedRequests d @ [fst q]
   \<and> camera (snd (queueRequest d (fst q) (snd q))) = camera d
   \<and> stream (snd (queueRequest d (fst q) (snd q))) = stream d"
  by (auto simp add: accepted_def queueRequest_def PipelineHandler_queueRequest_def)

lemma deliver_submit:
  "deliver d (submit q # es) = deliver (snd (queueRequest d (fst q) (snd q))) es"
  by (simp add: submit_def)

lemma deliver_submissions:
  "list_all (accepted d) qs \<Longrightarrow>
   \<exists>d'. deliver d (map submit qs) = Inr d'
     \<and> queuedRequests d' = queuedRequests d @ map fst qs
     \<and> camera d' = camera d \<and> stream d' = stream d"
proof (induction qs arbitrary: d)
  case Nil
  then show ?case by simp
next
  case (Cons q qs)
  let ?d1 = "snd (queueRequest d (fst q) (snd q))"
  from Cons.prems have q: "accepted d q" and rest: "list_all (accepted d) qs" by simp_all
  from queueRequest_accepted [OF q]
  have d1: "queuedRequests ?d1 = queuedRequests d @ [fst q]" "camera ?d1 = camera d"
    "stream ?d1 = stream d" by simp_all
  from d1(3) have "accepted ?d1 = accepted d" by (intro ext) (simp add: accepted_def)
  with rest have "list_all (accepted ?d1) qs" by simp
  from Cons.IH [OF this] obtain d' where
    "deliver ?d1 (map submit qs) = Inr d'" "queuedRequests d' = queuedRequests ?d1 @ map fst qs"
    "camera d' = camera ?d1" "stream d' = stream ?d1" by blast
  with d1 show ?case by (simp add: deliver_submit)
qed

lemma deliver_completions:
  "length bs \<le> length (queuedRequests d) \<Longrightarrow>
   \<exists>d'. deliver d (map BufferReady bs) = Inr d'
     \<and> requestCompleted (camera d') =
         requestCompleted (camera d) @ map reported (zip (queuedRequests d) bs)
     \<and> queuedRequests d' = drop (length bs) (queuedRequests d)"
proof (induction bs arbitrary: d)
  case Nil
  then show ?case by simp
next
  case (Cons b bs)
  then obtain r rest where q: "queuedRequests d = r # rest" by (cases "queuedRequests d") auto
  let ?d1 = "d\<lparr>camera := (camera d)\<lparr>
               bufferCompleted := bufferCompleted (camera d) @ [(r, b)],
               requestCompleted := requestCompleted (camera d)
                 @ [r\<lparr>completedBuffers := completedBuffers r @ [b], status := Completed\<rparr>]\<rparr>,
            queuedRequests := rest\<rparr>"
  have step: "bufferReady d b = Inr ?d1" by (rule bufferReady_front [OF q])
  from Cons.prems q have "length bs \<le> length (queuedRequests ?d1)" by simp
  from Cons.IH [OF this] obtain d' where
    "deliver ?d1 (map BufferReady bs) = Inr d'"
    "requestCompleted (camera d') =
       requestCompleted (camera ?d1) @ map reported (zip (queuedRequests ?d1) bs)"
    "queuedRequests d' = drop (length bs) (queuedRequests ?d1)" by blast
  with step q show ?case by (simp add: reported_def)
qed

text \<open>C2. On a camera with requests already in flight, let the requests \<open>qs\<close> be
  queued, each one taken by \<open>queueRequest\<close>, and then let buffer-ready events be
  delivered, no more of them than there are requests in flight. The run ends normally;
  the requests reported are the first requests in flight, in the order of their
  submission, one for each event and each reported once, with the status Completed and
  the event's buffer marked; the requests left in the queue are the later ones, in their
  order.\<close>

theorem completion_order_is_submission_order:
  assumes "list_all (accepted d) qs"
    and "length bs \<le> length (queuedRequests d) + length qs"
  shows "\<exists>d'. deliver d (map submit qs @ map BufferReady bs) = Inr d'
           \<and> requestCompleted (camera d') =
               requestCompleted (camera d)
                 @ map reported (zip (queuedRequests d @ map fst qs) bs)
           \<and> queuedRequests d' = drop (length bs) (queuedRequests d @ map fst qs)"
proof -
  from deliver_submissions [OF assms(1)] obtain d1 where d1:
    "deliver d (map submit qs) = Inr d1" "queuedRequests d1 = queuedRequests d @ map fst qs"
    "camera d1 = camera d" by blast
  from assms(2) d1(2) have "length bs \<le> length (queuedRequests d1)" by simp
  from deliver_completions [OF this] obtain d' where
    "deliver d1 (map BufferReady bs) = Inr d'"
    "requestCompleted (camera d') =
       requestCompleted (camera d1) @ map reported (zip (queuedRequests d1) bs)"
    "queuedRequests d' = drop (length bs) (queuedRequests d1)" by blast
  with d1 show ?thesis by (simp add: deliver_append)
qed

theorem completion_order_is_submission_order_witness:
  "\<exists>d'. deliver idle_camera
          [QueueRequest (request_for 1 0) 0, QueueRequest (request_for 1 1) 0,
           QueueRequest (request_for 1 2) 0, BufferReady 0, BufferReady 1] = Inr d'
      \<and> requestCompleted (camera d') =
          [\<lparr>bufferMap = [(1, 0)], completedBuffers = [0], status = Completed\<rparr>,
           \<lparr>bufferMap = [(1, 1)], completedBuffers = [1], status = Completed\<rparr>]
      \<and> queuedRequests d' = [request_for 1 2]"
  using completion_order_is_submission_order
    [of idle_camera "[(request_for 1 0, 0), (request_for 1 1, 0), (request_for 1 2, 0)]" "[0, 1]"]
  by (simp add: accepted_def findBuffer_def submit_def reported_def idle_camera_def
      sensor_b_def request_for_def)

section \<open>queueRequest\<close>

text \<open>C3, as amended. \<open>queueRequest\<close> returns 0 exactly when the request holds a
  buffer for the camera's stream and the device takes that buffer, and then the request is
  appended to the in-flight queue. When the request holds no buffer for the camera's
  stream (so also when it names only streams the camera does not know) the result is
  \<^verbatim>\<open>-ENOENT\<close> and the state is unchanged. When the device refuses the buffer the result
  is the device's error code, and the queue, the camera and the stream are unchanged.\<close>

theorem queueRequest_outcomes:
  "(fst (queueRequest d request ret) = 0
      \<longleftrightarrow> findBuffer request (stream d) \<noteq> None \<and> 0 \<le> ret)
   \<and> (fst (queueRequest d request ret) = 0 \<longrightarrow>
        queuedRequests (snd (queueRequest d request ret)) = queuedRequests d @ [request])
   \<and> (findBuffer request (stream d) = None \<longrightarrow>
        queueRequest d request ret = (- ENOENT, d))
   \<and> (findBuffer request (stream d) \<noteq> None \<and> ret < 0 \<longrightarrow>
        fst (queueRequest d request ret) = ret
        \<and> queuedRequests (snd (queueRequest d request ret)) = queuedRequests d
        \<and> camera (snd (queueRequest d request ret)) = camera d
        \<and> stream (snd (queueRequest d request ret)) = stream d)"
  by (cases "findBuffer request (stream d)")
     (auto simp add: queueRequest_def PipelineHandler_queueRequest_def ENOENT_def Let_def)

theorem queueRequest_outcomes_witness:
  "fst (queueRequest idle_camera (request_for 1 0) 0) = 0
   \<and> queuedRequests (snd (queueRequest idle_camera (request_for 1 0) 0)) = [request_for 1 0]
   \<and> queueRequest idle_camera (request_for 2 9) 0 = (- 2, idle_camera)
   \<and> fst (queueRequest idle_camera (request_for 1 0) (- 5)) = - 5
   \<and> queuedRequests (snd (queueRequest idle_camera (request_for 1 0) (- 5))) = []"
proof -
  have found: "findBuffer (request_for 1 0) (stream idle_camera) = Some 0"
    and missing: "findBuffer (request_for 2 9) (stream idle_camera) = None"
    and empty: "queuedRequests idle_camera = []"
    by (simp_all add: findBuffer_def request_for_def idle_camera_def)
  from found empty queueRequest_outcomes [of idle_camera "request_for 1 0" 0]
  have "fst (queueRequest idle_camera (request_for 1 0) 0) = 0
    \<and> queuedRequests (snd (queueRequest idle_camera (request_for 1 0) 0)) = [request_for 1 0]"
    by simp
  moreover from missing queueRequest_outcomes [of idle_camera "request_for 2 9" 0]
  have "queueRequest idle_camera (request_for 2 9) 0 = (- 2, idle_camera)"
    by (simp add: ENOENT_def)
  moreover from found empty queueRequest_outcomes [of idle_camera "request_for 1 0" "- 5"]
  have "fst (queueRequest idle_camera (request_for 1 0) (- 5)) = - 5
    \<and> queuedRequests (snd (queueRequest idle_camera (request_for 1 0) (- 5))) = []"
    by simp
  ultimately show ?thesis by simp
qed

text \<open>A request that names the stream at address 2, which the camera does not know,
  beside the camera's own stream is queued with the result 0, not \<^verbatim>\<open>-ENOENT\<close>.\<close>

theorem queueRequest_foreign_stream_counterexample:
  "2 \<in> fst ` set (bufferMap request_for_both)
   \<and> 2 \<notin> set (camera_streams (camera idle_camera))
   \<and> fst (queueRequest idle_camera request_for_both 0) = 0
   \<and> fst (queueRequest idle_camera request_for_both 0) \<noteq> - ENOENT"
  by (simp add: queueRequest_def findBuffer_def request_for_both_def idle_camera_def
      sensor_b_def ENOENT_def PipelineHandler_queueRequest_def)

section \<open>configure\<close>

text \<open>C4. The source reads the format as the hardware's report once \<^verbatim>\<open>setFormat\<close> has
  returned 0; a \<^verbatim>\<open>setFormat\<close> that fails leaves the format as it was asked. Then, for
  a configuration with an entry for the camera's stream, \<open>configure\<close> returns a code,
  and whenever the format or the size reported back differs from the one asked for, the
  code is \<^verbatim>\<open>-EINVAL\<close>. The code is 0 exactly when \<^verbatim>\<open>setFormat\<close> succeeds and reports
  back the format and the size asked for: after a successful \<open>configure\<close> the accepted
  format and size are what the hardware reported. A failure of \<^verbatim>\<open>setFormat\<close> itself is
  returned with its own code.\<close>

theorem configure_reads_back:
  assumes "config (stream d) = Some cfg"
    and "setFormat \<lparr>fourcc = pixelFormat cfg, size_fmt = size_cfg cfg\<rparr> = (ret, actual)"
    and "ret \<noteq> 0 \<longrightarrow> actual = \<lparr>fourcc = pixelFormat cfg, size_fmt = size_cfg cfg\<rparr>"
  shows "\<exists>code d'. configure d config setFormat = Inr (code, d')
           \<and> (fourcc actual \<noteq> pixelFormat cfg \<or> size_fmt actual \<noteq> size_cfg cfg
                \<longrightarrow> code = - EINVAL)
           \<and> (code = 0 \<longleftrightarrow>
                ret = 0 \<and> fourcc actual = pixelFormat cfg \<and> size_fmt actual = size_cfg cfg)
           \<and> (ret \<noteq> 0 \<longrightarrow> code = ret)"
  using assms by (auto simp add: configure_def Let_def EINVAL_def)

theorem configure_reads_back_witness:
  "(\<exists>d'. configure idle_camera [1 \<mapsto> default_cfg] accepts_format = Inr (0, d'))
   \<and> (\<exists>d'. configure idle_camera [1 \<mapsto> default_cfg] halves_width = Inr (- 22, d'))
   \<and> (\<exists>d'. configure idle_camera [1 \<mapsto> default_cfg] busy_format = Inr (- 16, d'))"
proof -
  let ?asked = "\<lparr>fourcc = pixelFormat default_cfg, size_fmt = size_cfg default_cfg\<rparr>"
  let ?halved = "\<lparr>fourcc = pixelFormat default_cfg, size_fmt = \<lparr>width = 320, height = 480\<rparr>\<rparr>"
  have s: "[1 \<mapsto> default_cfg] (stream idle_camera) = Some default_cfg"
    by (simp add: idle_camera_def)
  have a: "accepts_format ?asked = (0, ?asked)"
    by (simp add: accepts_format_def)
  have b: "halves_width ?asked = (0, ?halved)"
    by (simp add: halves_width_def)
  have c: "busy_format ?asked = (- 16, ?asked)"
    by (simp add: busy_format_def)
  have differs: "size_fmt ?halved \<noteq> size_cfg default_cfg"
    by (simp add: default_cfg_def)
  have ha: "(0 :: int) \<noteq> 0 \<longrightarrow> ?asked = ?asked"
    and hb: "(0 :: int) \<noteq> 0 \<longrightarrow> ?halved = ?asked"
    and hc: "(- 16 :: int) \<noteq> 0 \<longrightarrow> ?asked = ?asked"
    by simp_all
  from s a ha configure_reads_back
    [of "[1 \<mapsto> default_cfg]" idle_camera default_cfg accepts_format 0 ?asked]
  have "\<exists>d'. configure idle_camera [1 \<mapsto> default_cfg] accepts_format = Inr (0, d')"
    by auto
  moreover from s b hb differs configure_reads_back
    [of "[1 \<mapsto> default_cfg]" idle_camera default_cfg halves_width 0 ?halved]
  have "\<exists>d'. configure idle_camera [1 \<mapsto> default_cfg] halves_width = Inr (- 22, d')"
    by (auto simp add: EINVAL_def)
  moreover from s c hc configure_reads_back
    [of "[1 \<mapsto> default_cfg]" idle_camera default_cfg busy_format "- 16" ?asked]
  have "\<exists>d'. configure idle_camera [1 \<mapsto> default_cfg] busy_format = Inr (- 16, d')"
    by auto
  ultimately show ?thesis by blast
qed

section \<open>A buffer-ready event with nothing in flight\<close>

text \<open>C5, as amended. \<open>bufferReady\<close> does not test for an empty in-flight queue: it
  takes the front of the queue, which has no defined behaviour on an empty list. It ends
  in that fault exactly when the queue is empty; nothing is logged or dropped, and
  nothing is said about the state. That a request is in flight is a precondition, which
  the ordering guarantee of the hardware collaborator has to uphold.\<close>

theorem bufferReady_empty_queue:
  "bufferReady d buffer = Inl FrontOfEmptyList \<longleftrightarrow> queuedRequests d = []"
  by (cases "queuedRequests d")
     (simp_all add: bufferReady_def completeBuffer_def completeRequest_def)

text \<open>With nothing in flight, \<open>bufferReady\<close> does not return the state unchanged.\<close>

theorem bufferReady_empty_queue_counterexample:
  "queuedRequests idle_camera = [] \<and> bufferReady idle_camera 0 \<noteq> Inr idle_camera"
  by (simp add: bufferReady_def idle_camera_def)

section \<open>stop\<close>

text \<open>C6. After \<open>stop\<close> the in-flight queue is empty, whatever \<^verbatim>\<open>streamOff\<close>
  answered and whichever way the requests are flushed: \<open>stop\<close> does the same with a
  failing \<^verbatim>\<open>streamOff\<close> as with a successful one. A \<open>start\<close> that follows begins
  with an empty queue, whatever \<^verbatim>\<open>streamOn\<close> answers.\<close>

theorem stop_flushes_queue:
  "queuedRequests (stop d ret policy) = []
   \<and> stop d ret policy = stop d 0 policy
   \<and> queuedRequests (snd (start (stop d ret policy) ret')) = []"
  by (cases policy) (simp_all add: stop_def PipelineHandler_stop_def start_def)

section \<open>generateConfiguration\<close>

text \<open>C9, as amended. \<open>generateConfiguration\<close> is total, returns the camera data as
  it was (no call is issued on the device), and produces exactly one configuration, for
  the camera's one stream: RGB24, 640 by 480, 4 buffers. The roles do not matter: the
  result is the same for no role, one role or several.\<close>

theorem generateConfiguration_single:
  "fst (generateConfiguration d roles) (stream d)
     = Some \<lparr>pixelFormat = V4L2_PIX_FMT_RGB24, size_cfg = \<lparr>width = 640, height = 480\<rparr>,
             bufferCount = 4\<rparr>
   \<and> dom (fst (generateConfiguration d roles)) = {stream d}
   \<and> snd (generateConfiguration d roles) = d
   \<and> generateConfiguration d roles = generateConfiguration d []"
  by (simp add: generateConfiguration_def)

text \<open>For two roles the configuration has one entry, not two.\<close>

theorem generateConfiguration_roles_counterexample:
  "card (dom (fst (generateConfiguration idle_camera [StillCapture, Viewfinder])))
     \<noteq> length [StillCapture, Viewfinder]"
  by (simp add: generateConfiguration_def)

section \<open>allocateBuffers and freeBuffers\<close>

text \<open>What the source fixes of \<open>allocateBuffers\<close>: the device is handed the pool of
  the first stream of the set, the result is the device's code, that pool is what the
  device leaves, and every other Stream is as before. How many buffers the pool then
  holds is the device's doing.\<close>

lemma allocateBuffers_hands_over_first_pool:
  "allocateBuffers d store (s # rest) exportBuffers =
     Inr (fst (exportBuffers (bufferPool (store s))),
          d\<lparr>video := issue ExportBuffers (video d)\<rparr>,
          store(s := (store s)\<lparr>bufferPool := snd (exportBuffers (bufferPool (store s)))\<rparr>))"
  by (simp add: allocateBuffers_def Let_def)

lemma freeBuffers_returns_device_code:
  "freeBuffers d streams ret = (ret, d\<lparr>video := issue ReleaseBuffers (video d)\<rparr>)"
  by (simp add: freeBuffers_def)

section \<open>match\<close>

lemma present_subset:
  "present required graph \<longleftrightarrow> set required \<subseteq> set (graph_entities graph)"
  by (induction required) simp_all

lemma acquireMediaDevice_None:
  "acquireMediaDevice graphs dm = None
     \<longleftrightarrow> (\<forall>g \<in> set graphs. \<not> set (dm_entities dm) \<subseteq> set (graph_entities g))"
  by (induction graphs) (simp_all add: present_subset)

lemma acquireMediaDevice_Some:
  "acquireMediaDevice graphs dm = Some g \<Longrightarrow>
   \<exists>pre post. graphs = pre @ g # post
     \<and> set (dm_entities dm) \<subseteq> set (graph_entities g)
     \<and> (\<forall>p \<in> set pre. \<not> set (dm_entities dm) \<subseteq> set (graph_entities p))"
proof (induction graphs)
  case Nil
  then show ?case by simp
next
  case (Cons x graphs)
  show ?case
  proof (cases "present (dm_entities dm) x")
    case True
    with Cons.prems have "x = g" by simp
    with True have "x # graphs = [] @ g # graphs \<and> set (dm_entities dm) \<subseteq> set (graph_entities g)
      \<and> (\<forall>p \<in> set []. \<not> set (dm_entities dm) \<subseteq> set (graph_entities p))"
      by (simp add: present_subset)
    then show ?thesis by blast
  next
    case False
    with Cons.prems have "acquireMediaDevice graphs dm = Some g" by simp
    from Cons.IH [OF this] obtain pre post where
      "graphs = pre @ g # post" "set (dm_entities dm) \<subseteq> set (graph_entities g)"
      "\<forall>p \<in> set pre. \<not> set (dm_entities dm) \<subseteq> set (graph_entities p)" by blast
    with False have "x # graphs = (x # pre) @ g # post
      \<and> set (dm_entities dm) \<subseteq> set (graph_entities g)
      \<and> (\<forall>p \<in> set (x # pre). \<not> set (dm_entities dm) \<subseteq> set (graph_entities p))"
      by (simp add: present_subset)
    then show ?thesis by blast
  qed
qed

lemma vimc_dm_entities:
  "dm_entities vimc_dm =
     [''Raw Capture 0'', ''Raw Capture 1'', ''RGB/YUV Capture'', ''Sensor A'', ''Sensor B'',
      ''Debayer A'', ''Debayer B'', ''RGB/YUV Input'', ''Scaler'']"
  by (simp add: vimc_dm_def add_def DeviceMatch_new_def)

lemma match_result:
  "match h graphs open_ret a =
     (case acquireMediaDevice graphs vimc_dm of
        None \<Rightarrow> (False, h)
      | Some md \<Rightarrow>
          if open_ret \<noteq> 0 then (False, h\<lparr>media := Some md\<rparr>)
          else (True, h\<lparr>media := Some md,
                 cameras := cameras h @
                   [\<lparr>video = \<lparr>entity = getEntityByName md ''Raw Capture 1'', calls = [Open]\<rparr>,
                     stream = a,
                     camera = \<lparr>camera_name = ''VIMC Sensor B'', camera_streams = [a],
                                bufferCompleted = [], requestCompleted = []\<rparr>,
                     queuedRequests = []\<rparr>]\<rparr>))"
  by (simp add: match_def Let_def registerCamera_def issue_def split: option.split)

text \<open>C8. \<open>match\<close> acquires a media device exactly when some discovered graph
  contains every entity name the handler requires; other entities in the graph do not
  matter. The graph acquired is the first such graph in discovery order: every graph
  before it lacks a required name. When no graph qualifies, \<open>match\<close> returns false
  and leaves the handler as it was. \<open>match\<close> returns true exactly when a graph
  qualifies and the capture video node opens. The required names are the nine the source
  adds.\<close>

theorem match_binds_first_qualifying_graph:
  "(acquireMediaDevice graphs vimc_dm \<noteq> None
      \<longleftrightarrow> (\<exists>g \<in> set graphs. set (dm_entities vimc_dm) \<subseteq> set (graph_entities g)))
   \<and> (\<forall>g. acquireMediaDevice graphs vimc_dm = Some g \<longrightarrow>
        media (snd (match h graphs open_ret a)) = Some g
        \<and> (\<exists>pre post. graphs = pre @ g # post
             \<and> set (dm_entities vimc_dm) \<subseteq> set (graph_entities g)
             \<and> (\<forall>p \<in> set pre. \<not> set (dm_entities vimc_dm) \<subseteq> set (graph_entities p))))
   \<and> ((\<forall>g \<in> set graphs. \<not> set (dm_entities vimc_dm) \<subseteq> set (graph_entities g)) \<longrightarrow>
        match h graphs open_ret a = (False, h))
   \<and> (fst (match h graphs open_ret a) \<longleftrightarrow>
        (\<exists>g \<in> set graphs. set (dm_entities vimc_dm) \<subseteq> set (graph_entities g)) \<and> open_ret = 0)
   \<and> set (dm_entities vimc_dm) =
        {''Raw Capture 0'', ''Raw Capture 1'', ''RGB/YUV Capture'', ''Sensor A'', ''Sensor B'',
         ''Debayer A'', ''Debayer B'', ''RGB/YUV Input'', ''Scaler''}"
proof -
  have none: "acquireMediaDevice graphs vimc_dm = None
      \<longleftrightarrow> (\<forall>g \<in> set graphs. \<not> set (dm_entities vimc_dm) \<subseteq> set (graph_entities g))"
    by (rule acquireMediaDevice_None)
  have a: "acquireMediaDevice graphs vimc_dm \<noteq> None
      \<longleftrightarrow> (\<exists>g \<in> set graphs. set (dm_entities vimc_dm) \<subseteq> set (graph_entities g))"
    using none by auto
  have b: "\<forall>g. acquireMediaDevice graphs vimc_dm = Some g \<longrightarrow>
        media (snd (match h graphs open_ret a)) = Some g
        \<and> (\<exists>pre post. graphs = pre @ g # post
             \<and> set (dm_entities vimc_dm) \<subseteq> set (graph_entities g)
             \<and> (\<forall>p \<in> set pre. \<not> set (dm_entities vimc_dm) \<subseteq> set (graph_entities p)))"
  proof (intro allI impI conjI)
    fix g assume g: "acquireMediaDevice graphs vimc_dm = Some g"
    then show "media (snd (match h graphs open_ret a)) = Some g"
      by (simp add: match_result)
    from acquireMediaDevice_Some [OF g]
    show "\<exists>pre post. graphs = pre @ g # post
             \<and> set (dm_entities vimc_dm) \<subseteq> set (graph_entities g)
             \<and> (\<forall>p \<in> set pre. \<not> set (dm_entities vimc_dm) \<subseteq> set (graph_entities p))" .
  qed
  have c: "(\<forall>g \<in> set graphs. \<not> set (dm_entities vimc_dm) \<subseteq> set (graph_entities g)) \<longrightarrow>
        match h graphs open_ret a = (False, h)"
  proof
    assume "\<forall>g \<in> set graphs. \<not> set (dm_entities vimc_dm) \<subseteq> set (graph_entities g)"
    with none have "acquireMediaDevice graphs vimc_dm = None" by simp
    then show "match h graphs open_ret a = (False, h)" by (simp add: match_result)
  qed
  have d: "fst (match h graphs open_ret a) \<longleftrightarrow>
        (\<exists>g \<in> set graphs. set (dm_entities vimc_dm) \<subseteq> set (graph_entities g)) \<and> open_ret = 0"
    unfolding a [symmetric] by (cases "acquireMediaDevice graphs vimc_dm") (simp_all add: match_result)
  have e: "set (dm_entities vimc_dm) =
        {''Raw Capture 0'', ''Raw Capture 1'', ''RGB/YUV Capture'', ''Sensor A'', ''Sensor B'',
         ''Debayer A'', ''Debayer B'', ''RGB/YUV Input'', ''Scaler''}"
    by (simp add: vimc_dm_entities)
  from a b c d e show ?thesis by blast
qed

lemma vimc_graph_qualifies:
  "set (dm_entities vimc_dm) \<subseteq> set (graph_entities vimc_graph)"
  by (simp add: vimc_dm_entities vimc_graph_def)

lemma uvc_graph_fails:
  "\<not> set (dm_entities vimc_dm) \<subseteq> set (graph_entities uvc_graph)"
  by (simp add: vimc_dm_entities uvc_graph_def)

theorem match_binds_first_qualifying_graph_witness:
  "fst (match fresh_handler [uvc_graph, vimc_graph, vimc_graph\<lparr>graph_driver := ''second''\<rparr>] 0 1)
   \<and> media (snd (match fresh_handler
        [uvc_graph, vimc_graph, vimc_graph\<lparr>graph_driver := ''second''\<rparr>] 0 1)) = Some vimc_graph
   \<and> match fresh_handler [uvc_graph] 0 1 = (False, fresh_handler)"
proof -
  let ?gs = "[uvc_graph, vimc_graph, vimc_graph\<lparr>graph_driver := ''second''\<rparr>]"
  have acq: "acquireMediaDevice ?gs vimc_dm = Some vimc_graph"
    using vimc_graph_qualifies uvc_graph_fails by (simp add: present_subset)
  from match_binds_first_qualifying_graph [of ?gs fresh_handler 0 1] vimc_graph_qualifies acq
  have "fst (match fresh_handler ?gs 0 1)
    \<and> media (snd (match fresh_handler ?gs 0 1)) = Some vimc_graph" by simp
  moreover from match_binds_first_qualifying_graph [of "[uvc_graph]" fresh_handler 0 1]
    uvc_graph_fails
  have "match fresh_handler [uvc_graph] 0 1 = (False, fresh_handler)" by simp
  ultimately show ?thesis by simp
qed

text \<open>C10. When a graph has been matched and acquired and the capture video node
  fails to open, \<open>match\<close> returns false, the value it also returns when no graph
  matches, and the cameras registered are those registered before.\<close>

theorem match_open_failure:
  assumes "acquireMediaDevice graphs vimc_dm = Some md"
    and "open_ret \<noteq> 0"
    and "acquireMediaDevice others vimc_dm = None"
  shows "fst (match h graphs open_ret a) = False
       \<and> cameras (snd (match h graphs open_ret a)) = cameras h
       \<and> fst (match h graphs open_ret a) = fst (match h others ret' a')"
  using assms by (simp add: match_result)

theorem match_open_failure_witness:
  "fst (match fresh_handler [uvc_graph, vimc_graph] (- 19) 1) = False
   \<and> cameras (snd (match fresh_handler [uvc_graph, vimc_graph] (- 19) 1)) = []
   \<and> fst (match fresh_handler [uvc_graph, vimc_graph] (- 19) 1)
       = fst (match fresh_handler [uvc_graph] 0 1)"
proof -
  have acq: "acquireMediaDevice [uvc_graph, vimc_graph] vimc_dm = Some vimc_graph"
    using vimc_graph_qualifies uvc_graph_fails by (simp add: present_subset)
  have none: "acquireMediaDevice [uvc_graph] vimc_dm = None"
    using uvc_graph_fails by (simp add: present_subset)
  have "(- 19 :: int) \<noteq> 0" by simp
  from match_open_failure [OF acq this none, of fresh_handler 1 0 1]
  show ?thesis by (auto simp add: fresh_handler_def)
qed

end
